theory Spec2Isabelle
  imports Main "HOL-Library.AList"
begin

section \<open>Python values and exceptions\<close>

text \<open>
  The module \<^verbatim>\<open>weppy/tools/auth/models.py\<close> is dynamically typed. The values that
  reach it are modelled by two datatypes: \<open>pyval\<close> for the values of a FieldOverride
  mapping, of a row and of the fields of an insert (a point in time is a number of
  seconds), and \<open>setting\<close> for the entries of
  \<^verbatim>\<open>auth.settings\<close>, whose collections hold field names. Two lists held by one
  dictionary are taken to be separate objects.
\<close>

datatype pyval =
    PNone
  | PBool bool
  | PInt int
  | PStr string
  | PList "pyval list"
  | PTuple "pyval list"
  | PDatetime int

datatype setting =
    SNone
  | SBool bool
  | SInt int
  | SStr string
  | SList "string list"
  | STuple "string list"
  | SDict "(string \<times> string list) list"

datatype error = TypeError | ValueError | KeyError

text \<open>Python's truth value of an object, as \<^verbatim>\<open>if x\<close>, \<^verbatim>\<open>not x\<close> and \<^verbatim>\<open>x or y\<close> test it.\<close>

fun truthy :: "pyval \<Rightarrow> bool" where
  "truthy PNone = False"
| "truthy (PBool b) = b"
| "truthy (PInt n) = (n \<noteq> 0)"
| "truthy (PStr s) = (s \<noteq> [])"
| "truthy (PList xs) = (xs \<noteq> [])"
| "truthy (PTuple xs) = (xs \<noteq> [])"
| "truthy (PDatetime t) = True"

fun truthy_setting :: "setting \<Rightarrow> bool" where
  "truthy_setting SNone = False"
| "truthy_setting (SBool b) = b"
| "truthy_setting (SInt n) = (n \<noteq> 0)"
| "truthy_setting (SStr s) = (s \<noteq> [])"
| "truthy_setting (SList xs) = (xs \<noteq> [])"
| "truthy_setting (STuple xs) = (xs \<noteq> [])"
| "truthy_setting (SDict d) = (d \<noteq> [])"

text \<open>Sequencing of statements that may raise: the first exception ends the run.\<close>

definition then_do :: "error + 'a \<Rightarrow> ('a \<Rightarrow> error + 'b) \<Rightarrow> error + 'b" where
  "then_do r f = (case r of Inl e \<Rightarrow> Inl e | Inr x \<Rightarrow> f x)"

section \<open>The model object\<close>

text \<open>
  A table is the ordered list of its fields, each with the two flags the module reads
  and writes. \<^verbatim>\<open>self.auth.settings\<close> is a dictionary from setting names to values; the
  two FieldOverride mappings are the class attributes \<^verbatim>\<open>form_registration_rw\<close> and
  \<^verbatim>\<open>form_profile_rw\<close>, kept as association lists in the order of \<^verbatim>\<open>items()\<close>.
\<close>

record Field =
  name :: string
  readable :: bool
  writable :: bool

record auth_model =
  table :: "Field list"
  settings :: "string \<rightharpoonup> setting"
  form_registration_rw :: "(string \<times> pyval) list"
  form_profile_rw :: "(string \<times> pyval) list"

text \<open>
  Modelled from the spec: the container behind \<^verbatim>\<open>self.auth.settings\<close> is not part of
  the module; its entries are a value or "absent/empty", and an absent entry reads as
  \<^verbatim>\<open>None\<close>.
\<close>

definition settings_get :: "(string \<rightharpoonup> setting) \<Rightarrow> string \<Rightarrow> setting" where
  "settings_get m k = (case m k of None \<Rightarrow> SNone | Some v \<Rightarrow> v)"

section \<open>AuthModel: hiding and visibility resolution\<close>

text \<open>
  \<^verbatim>\<open>__hide_all\<close>: the loop runs over \<^verbatim>\<open>self.table.fields\<close>, the names of the fields,
  and clears both flags of \<^verbatim>\<open>self.table[field]\<close> for every name outside the list.
\<close>

definition alwaysvisible :: "string list" where
  "alwaysvisible = [''first_name'', ''last_name'', ''password'', ''email'']"

definition hide_field :: "string \<Rightarrow> Field list \<Rightarrow> Field list" where
  "hide_field nm tbl =
     map (\<lambda>f. if name f = nm then f\<lparr>writable := False, readable := False\<rparr> else f) tbl"

definition hide_all :: "auth_model \<Rightarrow> auth_model" where
  "hide_all self =
     self\<lparr>table :=
       fold (\<lambda>nm tbl. if nm \<notin> set alwaysvisible then hide_field nm tbl else tbl)
         (map name (table self)) (table self)\<rparr>"

text \<open>\<^verbatim>\<open>__base_visibility(form_type)\<close>.\<close>

definition base_visibility :: "auth_model \<Rightarrow> string \<Rightarrow> string list" where
  "base_visibility self form_type =
     (let exclude = (if form_type = ''profile_fields'' then [''password'', ''email''] else [])
      in map name (filter (\<lambda>f. writable f \<and> name f \<notin> set exclude) (table self)))"

text \<open>
  \<^verbatim>\<open>list(x)\<close> on a setting: a copy of a list, the elements of a tuple, the
  one-character strings of a string, the keys of a dictionary; \<^verbatim>\<open>None\<close>, a boolean
  and a number are not iterable.
\<close>

fun py_list :: "setting \<Rightarrow> error + string list" where
  "py_list (SList xs) = Inr xs"
| "py_list (STuple xs) = Inr xs"
| "py_list (SStr s) = Inr (map (\<lambda>c. [c]) s)"
| "py_list (SDict d) = Inr (map fst d)"
| "py_list SNone = Inl TypeError"
| "py_list (SBool b) = Inl TypeError"
| "py_list (SInt n) = Inl TypeError"

text \<open>
  Lines 78 to 81 of \<^verbatim>\<open>__define_authform_utils\<close>: the value \<^verbatim>\<open>rwdata\<close> the overrides
  start from. A dictionary is kept as it is; anything else is copied into two lists.
\<close>

definition initial_rwdata :: "auth_model \<Rightarrow> string \<Rightarrow> error + (string \<times> string list) list" where
  "initial_rwdata self setting =
     (let v = settings_get (settings self) setting;
          rwdata = (if truthy_setting v then v else SList (base_visibility self setting))
      in case rwdata of
           SDict d \<Rightarrow> Inr d
         | _ \<Rightarrow> then_do (py_list rwdata) (\<lambda>xs. Inr [(''writable'', xs), (''readable'', xs)]))"

text \<open>
  Lines 83 to 86: a tuple or a list is unpacked into two names, which raises unless it
  has two elements; any other value is used for both.
\<close>

fun unpack :: "pyval \<Rightarrow> error + (pyval \<times> pyval)" where
  "unpack (PTuple vs) = (case vs of [r, w] \<Rightarrow> Inr (r, w) | _ \<Rightarrow> Inl ValueError)"
| "unpack (PList vs) = (case vs of [r, w] \<Rightarrow> Inr (r, w) | _ \<Rightarrow> Inl ValueError)"
| "unpack v = Inr (v, v)"

text \<open>
  Lines 87 to 91, and 92 to 96 with the other key: \<^verbatim>\<open>rwdata[key]\<close> raises for a missing
  key; \<^verbatim>\<open>append\<close> adds at the end, \<^verbatim>\<open>remove\<close> deletes the first occurrence.
\<close>

definition set_flag ::
  "string \<Rightarrow> bool \<Rightarrow> string \<Rightarrow> (string \<times> string list) list
     \<Rightarrow> error + (string \<times> string list) list" where
  "set_flag key flag field rwdata =
     (case map_of rwdata key of
        None \<Rightarrow> Inl KeyError
      | Some xs \<Rightarrow>
          Inr (AList.update key
                 (if flag then xs @ [field]
                  else if field \<in> set xs then remove1 field xs else xs)
                 rwdata))"

definition apply_override ::
  "(string \<times> string list) list \<Rightarrow> string \<times> pyval \<Rightarrow> error + (string \<times> string list) list" where
  "apply_override rwdata fv =
     then_do (unpack (snd fv)) (\<lambda>(r, w).
     then_do (set_flag ''readable'' (truthy r) (fst fv) rwdata)
       (set_flag ''writable'' (truthy w) (fst fv)))"

fun apply_overrides ::
  "(string \<times> string list) list \<Rightarrow> (string \<times> pyval) list
     \<Rightarrow> error + (string \<times> string list) list" where
  "apply_overrides rwdata [] = Inr rwdata"
| "apply_overrides rwdata (fv # rest) =
     then_do (apply_override rwdata fv) (\<lambda>rwdata'. apply_overrides rwdata' rest)"

text \<open>
  Lines 97 and 98: every list of the dictionary becomes \<^verbatim>\<open>list(set(...))\<close>. Python
  leaves the order of that list open; \<open>remdups\<close> is one such order, and the results
  below read the lists through \<open>set\<close> and \<open>distinct\<close> only.
\<close>

definition dedup :: "(string \<times> string list) list \<Rightarrow> (string \<times> string list) list" where
  "dedup rwdata = map (\<lambda>(key, xs). (key, remdups xs)) rwdata"

text \<open>One round of the loop over \<^verbatim>\<open>settings_map\<close>, for a setting and its overrides.\<close>

definition resolve_context ::
  "string \<Rightarrow> (string \<times> pyval) list \<Rightarrow> auth_model \<Rightarrow> error + auth_model" where
  "resolve_context setting overrides self =
     then_do (initial_rwdata self setting) (\<lambda>rwdata.
     then_do (apply_overrides rwdata overrides) (\<lambda>rwdata'.
       Inr (self\<lparr>settings := (settings self)(setting \<mapsto> SDict (dedup rwdata'))\<rparr>)))"

definition define_authform_utils :: "auth_model \<Rightarrow> error + auth_model" where
  "define_authform_utils self =
     then_do (resolve_context ''register_fields'' (form_registration_rw self) self)
       (\<lambda>self'. resolve_context ''profile_fields'' (form_profile_rw self') self')"

text \<open>
  The two flags an override value stands for, once unpacked; a value that cannot be
  unpacked stands for none.
\<close>

definition readable_flag :: "pyval \<Rightarrow> bool" where
  "readable_flag v = (case unpack v of Inl e \<Rightarrow> False | Inr (r, w) \<Rightarrow> truthy r)"

definition writable_flag :: "pyval \<Rightarrow> bool" where
  "writable_flag v = (case unpack v of Inl e \<Rightarrow> False | Inr (r, w) \<Rightarrow> truthy w)"

section \<open>AuthModel: the definition pipeline\<close>

text \<open>
  The steps of the base class \<^verbatim>\<open>Model\<close> and the hook \<^verbatim>\<open>setup()\<close> are not part of the
  module: they are parameters, each a function on the model that may raise. A run of
  \<^verbatim>\<open>_define_\<close> carries the list of the calls made so far beside the model.
\<close>

record hooks =
  define_validation :: "auth_model \<Rightarrow> error + auth_model"
  define_defaults :: "auth_model \<Rightarrow> error + auth_model"
  define_updates :: "auth_model \<Rightarrow> error + auth_model"
  define_representation :: "auth_model \<Rightarrow> error + auth_model"
  define_computations :: "auth_model \<Rightarrow> error + auth_model"
  define_callbacks :: "auth_model \<Rightarrow> error + auth_model"
  define_scopes :: "auth_model \<Rightarrow> error + auth_model"
  define_indexes :: "auth_model \<Rightarrow> error + auth_model"
  define_form_utils :: "auth_model \<Rightarrow> error + auth_model"
  setup_hook :: "auth_model \<Rightarrow> error + auth_model"

datatype step =
    Validation | Defaults | Updates | Representation | Computations | Callbacks
  | Scopes | Indexes | HideAll | FormUtils | AuthformUtils | Setup

definition call ::
  "step \<Rightarrow> (auth_model \<Rightarrow> error + auth_model) \<Rightarrow> step list \<times> auth_model
     \<Rightarrow> error + (step list \<times> auth_model)" where
  "call nm f run =
     (case f (snd run) of Inl e \<Rightarrow> Inl e | Inr self' \<Rightarrow> Inr (fst run @ [nm], self'))"

text \<open>
  \<^verbatim>\<open>_define_\<close>. Line 49 evaluates the attribute \<^verbatim>\<open>define_form_utils\<close> of the base class
  and drops it: there is no call.
\<close>

definition define_model :: "hooks \<Rightarrow> auth_model \<Rightarrow> error + (step list \<times> auth_model)" where
  "define_model h self =
     then_do (call Validation (define_validation h) ([], self)) (\<lambda>run.
     then_do (call Defaults (define_defaults h) run) (\<lambda>run.
     then_do (call Updates (define_updates h) run) (\<lambda>run.
     then_do (call Representation (define_representation h) run) (\<lambda>run.
     then_do (call Computations (define_computations h) run) (\<lambda>run.
     then_do (call Callbacks (define_callbacks h) run) (\<lambda>run.
     then_do (call Scopes (define_scopes h) run) (\<lambda>run.
     then_do (call Indexes (define_indexes h) run) (\<lambda>run.
     then_do (call HideAll (\<lambda>s. Inr (hide_all s)) run) (\<lambda>run.
     (let looked_up = define_form_utils h in
     then_do (call AuthformUtils define_authform_utils run) (\<lambda>run.
     call Setup (setup_hook h) run)))))))))))"

text \<open>The first eight statements of \<^verbatim>\<open>_define_\<close>, the steps inherited from \<^verbatim>\<open>Model\<close>.\<close>

definition structural_setup :: "hooks \<Rightarrow> auth_model \<Rightarrow> error + auth_model" where
  "structural_setup h self =
     then_do (define_validation h self) (\<lambda>self.
     then_do (define_defaults h self) (\<lambda>self.
     then_do (define_updates h self) (\<lambda>self.
     then_do (define_representation h self) (\<lambda>self.
     then_do (define_computations h self) (\<lambda>self.
     then_do (define_callbacks h self) (\<lambda>self.
     then_do (define_scopes h self) (define_indexes h)))))))"

section \<open>AuthUserBasic: the insert hook and the row methods\<close>

text \<open>\<^verbatim>\<open>dict.get(key)\<close>: the value, or \<^verbatim>\<open>None\<close> for a missing key.\<close>

definition dict_get :: "(string \<rightharpoonup> pyval) \<Rightarrow> string \<Rightarrow> pyval" where
  "dict_get d k = (case d k of None \<Rightarrow> PNone | Some v \<Rightarrow> v)"

text \<open>
  \<^verbatim>\<open>set_registration_key(self, fields)\<close>, the \<^verbatim>\<open>before_insert\<close> callback. The token
  that \<^verbatim>\<open>uuid()\<close> would return is the parameter \<open>tok\<close>; the dictionary \<^verbatim>\<open>fields\<close>
  (here \<open>flds\<close>) is mutated in place, so the model returns it.
\<close>

definition set_registration_key ::
  "auth_model \<Rightarrow> string \<Rightarrow> (string \<rightharpoonup> pyval) \<Rightarrow> (string \<rightharpoonup> pyval)" where
  "set_registration_key self tok flds =
     (if truthy_setting (settings_get (settings self) ''registration_requires_verification'')
         \<and> \<not> truthy (dict_get flds ''registration_key'')
      then flds(''registration_key'' \<mapsto> PStr tok)
      else flds)"

text \<open>
  \<^verbatim>\<open>_now()\<close>, lines 19 to 22: the time of the current request when there is one,
  \<^verbatim>\<open>datetime.utcnow()\<close> otherwise. The two sources are parameters.
\<close>

definition now :: "pyval option \<Rightarrow> pyval \<Rightarrow> pyval" where
  "now request_now utcnow = (case request_now of Some t \<Rightarrow> t | None \<Rightarrow> utcnow)"

text \<open>
  Modelled from the spec: \<^verbatim>\<open>row.update_record(**kw)\<close> belongs to the record-mapping
  layer and is not part of the module. It assigns the given fields, and the row
  operations "return the updated record". \<^verbatim>\<open>updated_at\<close> is "refreshed at every
  update": line 27 declares it with \<^verbatim>\<open>update=_now\<close>, and \<^verbatim>\<open>AuthUserBasic\<close> is a
  \<^verbatim>\<open>TimestampedModel\<close>. So an update stores the value \<open>t\<close> of \<^verbatim>\<open>_now()\<close> there,
  unless the given fields say otherwise.
\<close>

definition update_record ::
  "pyval \<Rightarrow> (string \<rightharpoonup> pyval) \<Rightarrow> (string \<times> pyval) list \<Rightarrow> (string \<rightharpoonup> pyval)" where
  "update_record t row kw = fold (\<lambda>(k, v) r. r(k \<mapsto> v)) kw (row(''updated_at'' \<mapsto> t))"

text \<open>
  The three row methods, lines 130 to 140. The clock the update reads is passed along:
  the time of the request, if any, and the wall clock.
\<close>

definition set_disabled ::
  "pyval option \<Rightarrow> pyval \<Rightarrow> (string \<rightharpoonup> pyval) \<Rightarrow> (string \<rightharpoonup> pyval)" where
  "set_disabled req wall row =
     update_record (now req wall) row [(''registration_key'', PStr ''disabled'')]"

definition set_blocked ::
  "pyval option \<Rightarrow> pyval \<Rightarrow> (string \<rightharpoonup> pyval) \<Rightarrow> (string \<rightharpoonup> pyval)" where
  "set_blocked req wall row =
     update_record (now req wall) row [(''registration_key'', PStr ''blocked'')]"

definition set_allowed ::
  "pyval option \<Rightarrow> pyval \<Rightarrow> (string \<rightharpoonup> pyval) \<Rightarrow> (string \<rightharpoonup> pyval)" where
  "set_allowed req wall row =
     update_record (now req wall) row [(''registration_key'', PStr '''')]"

text \<open>A user row, last updated at time 0.\<close>

definition example_row :: "string \<rightharpoonup> pyval" where
  "example_row =
     [''email'' \<mapsto> PStr ''a@b.c'', ''registration_key'' \<mapsto> PStr '''',
      ''updated_at'' \<mapsto> PDatetime 0]"

section \<open>A model to run\<close>

text \<open>
  The scenario of the specification: a table with the fields \<^verbatim>\<open>first_name\<close>,
  \<^verbatim>\<open>last_name\<close>, \<^verbatim>\<open>email\<close>, \<^verbatim>\<open>password\<close> and \<^verbatim>\<open>bio\<close>, all readable and
  writable, no global setting, and the override \<^verbatim>\<open>{'bio': True}\<close> for both forms;
  then its state after the hiding step and at the end of the pipeline. In
  \<open>plain_hooks\<close> every inherited step and \<^verbatim>\<open>setup()\<close> return the model as it is.
\<close>

definition scenario_model :: auth_model where
  "scenario_model =
     \<lparr>table =
        [\<lparr>name = ''first_name'', readable = True, writable = True\<rparr>,
         \<lparr>name = ''last_name'', readable = True, writable = True\<rparr>,
         \<lparr>name = ''email'', readable = True, writable = True\<rparr>,
         \<lparr>name = ''password'', readable = True, writable = True\<rparr>,
         \<lparr>name = ''bio'', readable = True, writable = True\<rparr>],
      settings = Map.empty,
      form_registration_rw = [(''bio'', PBool True)],
      form_profile_rw = [(''bio'', PBool True)]\<rparr>"

definition scenario_hidden :: auth_model where
  "scenario_hidden =
     \<lparr>table =
        [\<lparr>name = ''first_name'', readable = True, writable = True\<rparr>,
         \<lparr>name = ''last_name'', readable = True, writable = True\<rparr>,
         \<lparr>name = ''email'', readable = True, writable = True\<rparr>,
         \<lparr>name = ''password'', readable = True, writable = True\<rparr>,
         \<lparr>name = ''bio'', readable = False, writable = False\<rparr>],
      settings = Map.empty,
      form_registration_rw = [(''bio'', PBool True)],
      form_profile_rw = [(''bio'', PBool True)]\<rparr>"

definition scenario_result :: auth_model where
  "scenario_result =
     \<lparr>table =
        [\<lparr>name = ''first_name'', readable = True, writable = True\<rparr>,
         \<lparr>name = ''last_name'', readable = True, writable = True\<rparr>,
         \<lparr>name = ''email'', readable = True, writable = True\<rparr>,
         \<lparr>name = ''password'', readable = True, writable = True\<rparr>,
         \<lparr>name = ''bio'', readable = False, writable = False\<rparr>],
      settings =
        [''register_fields'' \<mapsto>
           SDict [(''writable'', [''first_name'', ''last_name'', ''email'', ''password'', ''bio'']),
                  (''readable'', [''first_name'', ''last_name'', ''email'', ''password'', ''bio''])],
         ''profile_fields'' \<mapsto>
           SDict [(''writable'', [''first_name'', ''last_name'', ''bio'']),
                  (''readable'', [''first_name'', ''last_name'', ''bio''])]],
      form_registration_rw = [(''bio'', PBool True)],
      form_profile_rw = [(''bio'', PBool True)]\<rparr>"

definition plain_hooks :: hooks where
  "plain_hooks =
     \<lparr>define_validation = Inr, define_defaults = Inr, define_updates = Inr,
      define_representation = Inr, define_computations = Inr, define_callbacks = Inr,
      define_scopes = Inr, define_indexes = Inr, define_form_utils = Inr,
      setup_hook = Inr\<rparr>"

text \<open>
  Two further configurations on the same table: a global setting that names a field
  twice, with an override that hides that field; and a setting given as a string, one
  given as a dictionary without the two expected keys, and an override value that is a
  string.
\<close>

definition duplicate_model :: auth_model where
  "duplicate_model =
     \<lparr>table = table scenario_hidden,
      settings = [''register_fields'' \<mapsto> SList [''email'', ''email'']],
      form_registration_rw = [(''email'', PBool False)],
      form_profile_rw = []\<rparr>"



text \<open>
  A subclass whose \<^verbatim>\<open>setup()\<close> makes \<^verbatim>\<open>email\<close> read-only, with the inherited steps as
  before, and the scenario at the end of its pipeline.
\<close>

definition subclass_hooks :: hooks where
  "subclass_hooks =
     plain_hooks\<lparr>setup_hook :=
       (\<lambda>self. Inr (self\<lparr>table :=
          map (\<lambda>f. if name f = ''email'' then f\<lparr>writable := False\<rparr> else f) (table self)\<rparr>))\<rparr>"

definition subclass_result :: auth_model where
  "subclass_result =
     scenario_result\<lparr>table :=
        [\<lparr>name = ''first_name'', readable = True, writable = True\<rparr>,
         \<lparr>name = ''last_name'', readable = True, writable = True\<rparr>,
         \<lparr>name = ''email'', readable = True, writable = False\<rparr>,
         \<lparr>name = ''password'', readable = True, writable = True\<rparr>,
         \<lparr>name = ''bio'', readable = False, writable = False\<rparr>]\<rparr>"

section \<open>Auxiliary facts\<close>

lemma then_do_Inr_iff: "then_do r f = Inr y \<longleftrightarrow> (\<exists>x. r = Inr x \<and> f x = Inr y)"
  by (cases r) (simp_all add: then_do_def)

lemma then_do_simps: "then_do (Inl e) f = Inl e" "then_do (Inr x) f = f x"
  by (simp_all add: then_do_def)

lemma call_Inr_iff:
  "call nm f run = Inr run' \<longleftrightarrow> (\<exists>s'. f (snd run) = Inr s' \<and> run' = (fst run @ [nm], s'))"
  by (cases "f (snd run)") (auto simp: call_def)

lemma define_model_Inr_iff:
  "define_model h self = Inr (tr, self') \<longleftrightarrow>
     tr = [Validation, Defaults, Updates, Representation, Computations, Callbacks,
           Scopes, Indexes, HideAll, AuthformUtils, Setup]
     \<and> (\<exists>s8 s10. structural_setup h self = Inr s8
           \<and> define_authform_utils (hide_all s8) = Inr s10
           \<and> setup_hook h s10 = Inr self')"
  unfolding define_model_def structural_setup_def Let_def then_do_Inr_iff call_Inr_iff
  by auto

lemma hide_fold:
  "fold (\<lambda>nm tbl. if nm \<notin> set alwaysvisible then hide_field nm tbl else tbl) ns tbl =
     map (\<lambda>f. if name f \<in> set ns \<and> name f \<notin> set alwaysvisible
               then f\<lparr>writable := False, readable := False\<rparr> else f) tbl"
proof (induction ns arbitrary: tbl)
  case Nil
  then show ?case by simp
next
  case (Cons n ns)
  show ?case
    by (auto simp: Cons.IH hide_field_def)
qed

lemma table_hide_all:
  "table (hide_all self) =
     map (\<lambda>f. if name f \<in> set alwaysvisible then f
               else f\<lparr>writable := False, readable := False\<rparr>) (table self)"
  by (auto simp: hide_all_def hide_fold)

lemma resolve_context_table:
  "resolve_context c ovs s = Inr s' \<Longrightarrow> table s' = table s"
  by (auto simp: resolve_context_def then_do_Inr_iff)

lemma define_authform_utils_table:
  "define_authform_utils s = Inr s' \<Longrightarrow> table s' = table s"
  by (auto simp: define_authform_utils_def then_do_Inr_iff dest!: resolve_context_table)

lemma structural_setup_Inr_iff:
  "structural_setup h self = Inr s8 \<longleftrightarrow>
     (\<exists>s1 s2 s3 s4 s5 s6 s7.
        define_validation h self = Inr s1 \<and> define_defaults h s1 = Inr s2
        \<and> define_updates h s2 = Inr s3 \<and> define_representation h s3 = Inr s4
        \<and> define_computations h s4 = Inr s5 \<and> define_callbacks h s5 = Inr s6
        \<and> define_scopes h s6 = Inr s7 \<and> define_indexes h s7 = Inr s8)"
  unfolding structural_setup_def then_do_Inr_iff by blast

lemma define_authform_utils_Inr_iff:
  "define_authform_utils s = Inr s' \<longleftrightarrow>
     (\<exists>s1. resolve_context ''register_fields'' (form_registration_rw s) s = Inr s1
        \<and> resolve_context ''profile_fields'' (form_profile_rw s1) s1 = Inr s')"
  unfolding define_authform_utils_def then_do_Inr_iff by blast

lemma scenario_hide_all: "hide_all scenario_model = scenario_hidden"
  by (simp add: hide_all_def hide_field_def alwaysvisible_def scenario_model_def
      scenario_hidden_def)

lemma scenario_authform_utils: "define_authform_utils scenario_hidden = Inr scenario_result"
  by (simp add: scenario_hidden_def scenario_result_def
      define_authform_utils_def resolve_context_def initial_rwdata_def settings_get_def
      base_visibility_def apply_override_def set_flag_def dedup_def then_do_def)

lemma scenario_run:
  "define_model plain_hooks scenario_model =
     Inr ([Validation, Defaults, Updates, Representation, Computations, Callbacks,
           Scopes, Indexes, HideAll, AuthformUtils, Setup], scenario_result)"
  by (simp add: define_model_def plain_hooks_def call_def then_do_simps
      scenario_hide_all scenario_authform_utils)

text \<open>Overrides, one entry at a time and as a whole.\<close>

lemma count_list_remove1:
  "count_list (remove1 f xs) g = (if g = f then count_list xs g - 1 else count_list xs g)"
  by (induction xs) auto

lemma set_flag_Inr_iff:
  "set_flag key flag field rw = Inr rw' \<longleftrightarrow>
     (\<exists>xs. map_of rw key = Some xs
        \<and> rw' = AList.update key
             (if flag then xs @ [field] else if field \<in> set xs then remove1 field xs else xs) rw)"
  by (auto simp: set_flag_def split: option.splits)

lemma set_flag_same:
  "set_flag key flag field rw = Inr rw' \<Longrightarrow> map_of rw key = Some xs \<Longrightarrow>
     map_of rw' key = Some (if flag then xs @ [field] else remove1 field xs)"
  by (auto simp: set_flag_Inr_iff update_conv' remove1_idem)

lemma set_flag_other:
  "set_flag key flag field rw = Inr rw' \<Longrightarrow> k \<noteq> key \<Longrightarrow> map_of rw' k = map_of rw k"
  by (auto simp: set_flag_Inr_iff update_conv')

lemma apply_override_Inr_iff:
  "apply_override rw (f, v) = Inr rw' \<longleftrightarrow>
     (\<exists>r w rw1. unpack v = Inr (r, w)
        \<and> set_flag ''readable'' (truthy r) f rw = Inr rw1
        \<and> set_flag ''writable'' (truthy w) f rw1 = Inr rw')"
  by (auto simp: apply_override_def then_do_Inr_iff)

lemma apply_override_readable:
  assumes "apply_override rw (f, v) = Inr rw'" "unpack v = Inr (r, w)"
    "map_of rw ''readable'' = Some xs"
  shows "map_of rw' ''readable'' = Some (if truthy r then xs @ [f] else remove1 f xs)"
proof -
  from assms(1,2) obtain rw1 where
    a: "set_flag ''readable'' (truthy r) f rw = Inr rw1"
    and b: "set_flag ''writable'' (truthy w) f rw1 = Inr rw'"
    by (auto simp: apply_override_Inr_iff)
  from set_flag_other [OF b, of "''readable''"] set_flag_same [OF a assms(3)]
  show ?thesis by simp
qed

lemma apply_override_writable:
  assumes "apply_override rw (f, v) = Inr rw'" "unpack v = Inr (r, w)"
    "map_of rw ''writable'' = Some xs"
  shows "map_of rw' ''writable'' = Some (if truthy w then xs @ [f] else remove1 f xs)"
proof -
  from assms(1,2) obtain rw1 where
    a: "set_flag ''readable'' (truthy r) f rw = Inr rw1"
    and b: "set_flag ''writable'' (truthy w) f rw1 = Inr rw'"
    by (auto simp: apply_override_Inr_iff)
  from set_flag_other [OF a, of "''writable''"] assms(3)
  have "map_of rw1 ''writable'' = Some xs" by simp
  from set_flag_same [OF b this] show ?thesis .
qed

lemma apply_override_other:
  assumes "apply_override rw (f, v) = Inr rw'" "k \<noteq> ''readable''" "k \<noteq> ''writable''"
  shows "map_of rw' k = map_of rw k"
proof -
  from assms(1) obtain r w rw1 where
    a: "set_flag ''readable'' (truthy r) f rw = Inr rw1"
    and b: "set_flag ''writable'' (truthy w) f rw1 = Inr rw'"
    by (auto simp: apply_override_Inr_iff)
  from set_flag_other [OF a assms(2)] set_flag_other [OF b assms(3)] show ?thesis by simp
qed

lemma apply_override_keys:
  assumes "apply_override rw (f, v) = Inr rw'"
  shows "\<exists>r w xs ws. unpack v = Inr (r, w) \<and> map_of rw ''readable'' = Some xs
           \<and> map_of rw ''writable'' = Some ws"
proof -
  from assms obtain r w rw1 where u: "unpack v = Inr (r, w)" and
    a: "set_flag ''readable'' (truthy r) f rw = Inr rw1"
    and b: "set_flag ''writable'' (truthy w) f rw1 = Inr rw'"
    by (auto simp: apply_override_Inr_iff)
  from a obtain xs where xs: "map_of rw ''readable'' = Some xs" by (auto simp: set_flag_Inr_iff)
  from b obtain ws where "map_of rw1 ''writable'' = Some ws" by (auto simp: set_flag_Inr_iff)
  with set_flag_other [OF a, of "''writable''"] have "map_of rw ''writable'' = Some ws" by simp
  with u xs show ?thesis by blast
qed


lemma apply_overrides_Cons_Inr_iff:
  "apply_overrides rw (fv # rest) = Inr rw' \<longleftrightarrow>
     (\<exists>rw1. apply_override rw fv = Inr rw1 \<and> apply_overrides rw1 rest = Inr rw')"
  by (simp add: then_do_Inr_iff)

lemma apply_override_readable_flag:
  assumes "apply_override rw (f, v) = Inr rw'" "map_of rw ''readable'' = Some xs"
  shows "map_of rw' ''readable'' = Some (if readable_flag v then xs @ [f] else remove1 f xs)"
proof -
  from apply_override_keys [OF assms(1)] obtain r w where u: "unpack v = Inr (r, w)" by blast
  from apply_override_readable [OF assms(1) u assms(2)] u show ?thesis
    by (simp add: readable_flag_def)
qed

lemma apply_override_writable_flag:
  assumes "apply_override rw (f, v) = Inr rw'" "map_of rw ''writable'' = Some xs"
  shows "map_of rw' ''writable'' = Some (if writable_flag v then xs @ [f] else remove1 f xs)"
proof -
  from apply_override_keys [OF assms(1)] obtain r w where u: "unpack v = Inr (r, w)" by blast
  from apply_override_writable [OF assms(1) u assms(2)] u show ?thesis
    by (simp add: writable_flag_def)
qed

lemma overrides_count:
  assumes step: "\<And>rw f v rw' xs. apply_override rw (f, v) = Inr rw' \<Longrightarrow> map_of rw K = Some xs
      \<Longrightarrow> map_of rw' K = Some (if fl v then xs @ [f] else remove1 f xs)"
    and run: "apply_overrides rw ovs = Inr rw'"
    and keys: "distinct (map fst ovs)"
    and start: "map_of rw K = Some xs"
  shows "\<exists>ys. map_of rw' K = Some ys
           \<and> (\<forall>f. count_list ys f =
                 (case map_of ovs f of
                    None \<Rightarrow> count_list xs f
                  | Some v \<Rightarrow> if fl v then count_list xs f + 1 else count_list xs f - 1))"
  using run keys start
proof (induction ovs arbitrary: rw xs)
  case Nil
  then show ?case by simp
next
  case (Cons fv rest)
  obtain f0 v0 where fv: "fv = (f0, v0)" by (cases fv)
  from Cons.prems(1) obtain rw1 where
    one: "apply_override rw (f0, v0) = Inr rw1" and more: "apply_overrides rw1 rest = Inr rw'"
    unfolding fv apply_overrides_Cons_Inr_iff by blast
  let ?xs1 = "if fl v0 then xs @ [f0] else remove1 f0 xs"
  from step [OF one Cons.prems(3)] have xs1: "map_of rw1 K = Some ?xs1" .
  from Cons.prems(2) have d: "distinct (map fst rest)" and fresh: "map_of rest f0 = None"
    by (auto simp: fv map_of_eq_None_iff)
  from Cons.IH [OF more d xs1] obtain ys where
    ys: "map_of rw' K = Some ys"
    and cnt: "\<And>f. count_list ys f =
                 (case map_of rest f of
                    None \<Rightarrow> count_list ?xs1 f
                  | Some v \<Rightarrow> if fl v then count_list ?xs1 f + 1 else count_list ?xs1 f - 1)"
    by blast
  have "count_list ys f =
          (case map_of (fv # rest) f of
             None \<Rightarrow> count_list xs f
           | Some v \<Rightarrow> if fl v then count_list xs f + 1 else count_list xs f - 1)" for f
  proof (cases "f = f0")
    case True
    with cnt [of f0] fresh show ?thesis by (simp add: fv count_list_remove1)
  next
    case False
    with cnt [of f] show ?thesis by (simp add: fv count_list_remove1 split: option.splits)
  qed
  with ys show ?case by blast
qed

lemma readable_count:
  assumes "apply_overrides rw ovs = Inr rw'" "distinct (map fst ovs)"
    "map_of rw ''readable'' = Some xs"
  shows "\<exists>ys. map_of rw' ''readable'' = Some ys
           \<and> (\<forall>f. count_list ys f =
                 (case map_of ovs f of
                    None \<Rightarrow> count_list xs f
                  | Some v \<Rightarrow> if readable_flag v then count_list xs f + 1
                             else count_list xs f - 1))"
  by (rule overrides_count [where fl = readable_flag, OF _ assms])
     (rule apply_override_readable_flag)

lemma writable_count:
  assumes "apply_overrides rw ovs = Inr rw'" "distinct (map fst ovs)"
    "map_of rw ''writable'' = Some xs"
  shows "\<exists>ys. map_of rw' ''writable'' = Some ys
           \<and> (\<forall>f. count_list ys f =
                 (case map_of ovs f of
                    None \<Rightarrow> count_list xs f
                  | Some v \<Rightarrow> if writable_flag v then count_list xs f + 1
                             else count_list xs f - 1))"
  by (rule overrides_count [where fl = writable_flag, OF _ assms])
     (rule apply_override_writable_flag)

lemma apply_overrides_other:
  "apply_overrides rw ovs = Inr rw' \<Longrightarrow> k \<noteq> ''readable'' \<Longrightarrow> k \<noteq> ''writable'' \<Longrightarrow>
     map_of rw' k = map_of rw k"
proof (induction ovs arbitrary: rw)
  case Nil
  then show ?case by simp
next
  case (Cons fv rest)
  obtain f0 v0 where fv: "fv = (f0, v0)" by (cases fv)
  from Cons.prems(1) obtain rw1 where
    one: "apply_override rw (f0, v0) = Inr rw1" and more: "apply_overrides rw1 rest = Inr rw'"
    unfolding fv apply_overrides_Cons_Inr_iff by blast
  from Cons.IH [OF more Cons.prems(2,3)] apply_override_other [OF one Cons.prems(2,3)]
  show ?case by simp
qed



lemma set_flag_present:
  "map_of rw key = Some xs \<Longrightarrow> \<exists>rw'. set_flag key flag field rw = Inr rw'"
  by (simp add: set_flag_def)

lemma apply_override_ok:
  assumes "unpack v = Inr (r, w)" "map_of rw ''readable'' = Some xs"
    "map_of rw ''writable'' = Some ws"
  shows "\<exists>rw'. apply_override rw (f, v) = Inr rw'"
proof -
  from set_flag_present [OF assms(2)] obtain rw1 where
    a: "set_flag ''readable'' (truthy r) f rw = Inr rw1" by blast
  from set_flag_other [OF a, of "''writable''"] assms(3)
  have "map_of rw1 ''writable'' = Some ws" by simp
  from set_flag_present [OF this] obtain rw' where
    "set_flag ''writable'' (truthy w) f rw1 = Inr rw'" by blast
  with a assms(1) show ?thesis by (auto simp: apply_override_Inr_iff)
qed

lemma apply_override_keeps_keys:
  assumes "apply_override rw (f, v) = Inr rw'"
  shows "\<exists>xs ws. map_of rw' ''readable'' = Some xs \<and> map_of rw' ''writable'' = Some ws"
proof -
  from apply_override_keys [OF assms] obtain r w xs ws where
    u: "unpack v = Inr (r, w)" and xs: "map_of rw ''readable'' = Some xs"
    and ws: "map_of rw ''writable'' = Some ws" by blast
  from apply_override_readable [OF assms u xs] apply_override_writable [OF assms u ws]
  show ?thesis by blast
qed

lemma apply_overrides_ok:
  assumes "\<forall>(f, v) \<in> set ovs. \<exists>r w. unpack v = Inr (r, w)"
    "map_of rw ''readable'' = Some xs" "map_of rw ''writable'' = Some ws"
  shows "\<exists>rw'. apply_overrides rw ovs = Inr rw'"
  using assms
proof (induction ovs arbitrary: rw xs ws)
  case Nil
  then show ?case by simp
next
  case (Cons fv rest)
  obtain f0 v0 where fv: "fv = (f0, v0)" by (cases fv)
  from Cons.prems(1) obtain r w where u: "unpack v0 = Inr (r, w)" by (auto simp: fv)
  from apply_override_ok [OF u Cons.prems(2,3)] obtain rw1 where
    one: "apply_override rw (f0, v0) = Inr rw1" by blast
  from apply_override_keeps_keys [OF one] obtain xs1 ws1 where
    k: "map_of rw1 ''readable'' = Some xs1" "map_of rw1 ''writable'' = Some ws1" by blast
  from Cons.prems(1) have "\<forall>(f, v) \<in> set rest. \<exists>r w. unpack v = Inr (r, w)" by simp
  from Cons.IH [OF this k] obtain rw' where "apply_overrides rw1 rest = Inr rw'" by blast
  with one show ?case by (auto simp: fv then_do_simps)
qed

lemma apply_overrides_needs:
  assumes "apply_overrides rw ovs = Inr rw'"
  shows "(\<forall>(f, v) \<in> set ovs. \<exists>r w. unpack v = Inr (r, w))
         \<and> (ovs \<noteq> [] \<longrightarrow> (\<exists>xs ws. map_of rw ''readable'' = Some xs
                \<and> map_of rw ''writable'' = Some ws))"
  using assms
proof (induction ovs arbitrary: rw)
  case Nil
  then show ?case by simp
next
  case (Cons fv rest)
  obtain f0 v0 where fv: "fv = (f0, v0)" by (cases fv)
  from Cons.prems obtain rw1 where
    one: "apply_override rw (f0, v0) = Inr rw1" and more: "apply_overrides rw1 rest = Inr rw'"
    unfolding fv apply_overrides_Cons_Inr_iff by blast
  from apply_override_keys [OF one] Cons.IH [OF more] show ?case
    by (auto simp: fv)
qed


lemma apply_overrides_nonempty:
  "apply_overrides rw ovs = Inr rw' \<Longrightarrow> rw \<noteq> [] \<Longrightarrow> rw' \<noteq> []"
proof (induction ovs arbitrary: rw)
  case Nil
  then show ?case by simp
next
  case (Cons fv rest)
  obtain f0 v0 where fv: "fv = (f0, v0)" by (cases fv)
  from Cons.prems obtain rw1 where
    one: "apply_override rw (f0, v0) = Inr rw1" and more: "apply_overrides rw1 rest = Inr rw'"
    unfolding fv apply_overrides_Cons_Inr_iff by blast
  from apply_override_keeps_keys [OF one] have "rw1 \<noteq> []" by auto
  from Cons.IH [OF more this] show ?case .
qed

lemma map_of_dedup: "map_of (dedup rw) k = map_option remdups (map_of rw k)"
  by (simp add: dedup_def map_of_map)

lemma dedup_nonempty: "dedup rw = [] \<longleftrightarrow> rw = []"
  by (simp add: dedup_def)

lemma resolve_context_Inr_iff:
  "resolve_context c ovs s = Inr s' \<longleftrightarrow>
     (\<exists>rw rw'. initial_rwdata s c = Inr rw \<and> apply_overrides rw ovs = Inr rw'
        \<and> s' = s\<lparr>settings := (settings s)(c \<mapsto> SDict (dedup rw'))\<rparr>)"
  by (auto simp: resolve_context_def then_do_Inr_iff)

lemma initial_rwdata_falsy:
  "\<not> truthy_setting (settings_get (settings s) c) \<Longrightarrow>
     initial_rwdata s c =
       Inr [(''writable'', base_visibility s c), (''readable'', base_visibility s c)]"
  by (simp add: initial_rwdata_def then_do_simps)

lemma initial_rwdata_dict:
  "settings s c = Some (SDict d) \<Longrightarrow> d \<noteq> [] \<Longrightarrow> initial_rwdata s c = Inr d"
  by (simp add: initial_rwdata_def settings_get_def)

lemma initial_rwdata_nonempty: "initial_rwdata s c = Inr rw \<Longrightarrow> rw \<noteq> []"
  by (cases "settings_get (settings s) c")
     (auto simp: initial_rwdata_def then_do_def Let_def split: if_splits)

text \<open>
  A second resolution of the same context. When no field that an override sets to false
  is listed more than once where the first run starts, the second run returns and
  leaves the readable and the writable set as the first run stored them.
\<close>

lemma count_list_remdups: "count_list (remdups xs) f = (if f \<in> set xs then 1 else 0)"
  by (induction xs) auto

lemma set_remove1_once: "count_list xs f \<le> 1 \<Longrightarrow> set (remove1 f xs) = set xs - {f}"
  by (induction xs) (auto simp: count_list_0_iff)

lemma in_set_count: "f \<in> set xs \<longleftrightarrow> 0 < count_list xs f"
  using count_list_0_iff [of xs f] by auto

lemma rerun_same_set:
  assumes step: "\<And>rw f v rw' xs. apply_override rw (f, v) = Inr rw' \<Longrightarrow> map_of rw K = Some xs
      \<Longrightarrow> map_of rw' K = Some (if fl v then xs @ [f] else remove1 f xs)"
    and run1: "apply_overrides rw0 ovs = Inr rw1"
    and run2: "apply_overrides (dedup rw1) ovs = Inr rw2"
    and keys: "distinct (map fst ovs)"
    and once: "\<And>f v xs. (f, v) \<in> set ovs \<Longrightarrow> \<not> fl v \<Longrightarrow> map_of rw0 K = Some xs
      \<Longrightarrow> count_list xs f \<le> 1"
    and absent: "map_of rw0 K = None \<Longrightarrow> ovs = []"
  shows "map_option set (map_of (dedup rw2) K) = map_option set (map_of (dedup rw1) K)"
proof (cases "map_of rw0 K")
  case None
  from absent [OF None] run1 run2 None show ?thesis by (auto simp: map_of_dedup)
next
  case (Some xs)
  have "\<exists>ys. map_of rw1 K = Some ys
           \<and> (\<forall>f. count_list ys f =
                 (case map_of ovs f of
                    None \<Rightarrow> count_list xs f
                  | Some v \<Rightarrow> if fl v then count_list xs f + 1 else count_list xs f - 1))"
    by (rule overrides_count [where fl = fl, OF _ run1 keys Some]) (rule step)
  then obtain ys where
    ys: "map_of rw1 K = Some ys"
    and cy: "\<And>f. count_list ys f =
                 (case map_of ovs f of
                    None \<Rightarrow> count_list xs f
                  | Some v \<Rightarrow> if fl v then count_list xs f + 1 else count_list xs f - 1)"
    by blast
  from ys have d1: "map_of (dedup rw1) K = Some (remdups ys)" by (simp add: map_of_dedup)
  have "\<exists>zs. map_of rw2 K = Some zs
           \<and> (\<forall>f. count_list zs f =
                 (case map_of ovs f of
                    None \<Rightarrow> count_list (remdups ys) f
                  | Some v \<Rightarrow> if fl v then count_list (remdups ys) f + 1
                             else count_list (remdups ys) f - 1))"
    by (rule overrides_count [where fl = fl, OF _ run2 keys d1]) (rule step)
  then obtain zs where
    zs: "map_of rw2 K = Some zs"
    and cz: "\<And>f. count_list zs f =
                 (case map_of ovs f of
                    None \<Rightarrow> count_list (remdups ys) f
                  | Some v \<Rightarrow> if fl v then count_list (remdups ys) f + 1
                             else count_list (remdups ys) f - 1)"
    by blast
  have "f \<in> set zs \<longleftrightarrow> f \<in> set ys" for f
  proof (cases "map_of ovs f")
    case None
    with cz [of f] show ?thesis by (simp add: in_set_count [of f zs] count_list_remdups)
  next
    case (Some v)
    show ?thesis
    proof (cases "fl v")
      case True
      with Some cz [of f] cy [of f] show ?thesis by (simp add: in_set_count)
    next
      case False
      from Some have "(f, v) \<in> set ovs" by (rule map_of_SomeD)
      from once [OF this False \<open>map_of rw0 K = Some xs\<close>] have "count_list xs f \<le> 1" .
      with Some False cz [of f] cy [of f] show ?thesis
        by (simp add: in_set_count count_list_remdups)
    qed
  qed
  then have "set zs = set ys" by blast
  with ys zs show ?thesis by (simp add: map_of_dedup)
qed

lemma resolution_idempotent_without_duplicates:
  assumes first: "resolve_context c ovs s = Inr s1"
    and start: "initial_rwdata s c = Inr rw0"
    and keys: "distinct (map fst ovs)"
    and once_r: "\<And>f v xs. (f, v) \<in> set ovs \<Longrightarrow> \<not> readable_flag v
      \<Longrightarrow> map_of rw0 ''readable'' = Some xs \<Longrightarrow> count_list xs f \<le> 1"
    and once_w: "\<And>f v xs. (f, v) \<in> set ovs \<Longrightarrow> \<not> writable_flag v
      \<Longrightarrow> map_of rw0 ''writable'' = Some xs \<Longrightarrow> count_list xs f \<le> 1"
  shows "\<exists>s2 d1 d2. resolve_context c ovs s1 = Inr s2
           \<and> settings s1 c = Some (SDict d1) \<and> settings s2 c = Some (SDict d2)
           \<and> map_option set (map_of d2 ''readable'') = map_option set (map_of d1 ''readable'')
           \<and> map_option set (map_of d2 ''writable'') = map_option set (map_of d1 ''writable'')"
proof -
  from first start obtain rw1 where
    run1: "apply_overrides rw0 ovs = Inr rw1"
    and s1: "s1 = s\<lparr>settings := (settings s)(c \<mapsto> SDict (dedup rw1))\<rparr>"
    by (auto simp: resolve_context_Inr_iff)
  from apply_overrides_nonempty [OF run1 initial_rwdata_nonempty [OF start]]
  have "dedup rw1 \<noteq> []" by (simp add: dedup_nonempty)
  with s1 have start2: "initial_rwdata s1 c = Inr (dedup rw1)"
    by (simp add: initial_rwdata_dict)
  note needs = apply_overrides_needs [OF run1]
  have "\<exists>rw2. apply_overrides (dedup rw1) ovs = Inr rw2"
  proof (cases "ovs = []")
    case True
    then show ?thesis by simp
  next
    case False
    with needs obtain xs ws where
      "map_of rw0 ''readable'' = Some xs" "map_of rw0 ''writable'' = Some ws" by blast
    from readable_count [OF run1 keys this(1)] writable_count [OF run1 keys this(2)]
    obtain ys yw where "map_of rw1 ''readable'' = Some ys" "map_of rw1 ''writable'' = Some yw"
      by blast
    then have "map_of (dedup rw1) ''readable'' = Some (remdups ys)"
      "map_of (dedup rw1) ''writable'' = Some (remdups yw)"
      by (simp_all add: map_of_dedup)
    from apply_overrides_ok [OF _ this] needs show ?thesis by blast
  qed
  then obtain rw2 where run2: "apply_overrides (dedup rw1) ovs = Inr rw2" by blast
  from needs have absent_r: "map_of rw0 ''readable'' = None \<Longrightarrow> ovs = []"
    and absent_w: "map_of rw0 ''writable'' = None \<Longrightarrow> ovs = []"
    by auto
  have r: "map_option set (map_of (dedup rw2) ''readable'')
      = map_option set (map_of (dedup rw1) ''readable'')"
    by (rule rerun_same_set [where fl = readable_flag, OF _ run1 run2 keys once_r absent_r])
       (rule apply_override_readable_flag)
  have w: "map_option set (map_of (dedup rw2) ''writable'')
      = map_option set (map_of (dedup rw1) ''writable'')"
    by (rule rerun_same_set [where fl = writable_flag, OF _ run1 run2 keys once_w absent_w])
       (rule apply_override_writable_flag)
  let ?s2 = "s1\<lparr>settings := (settings s1)(c \<mapsto> SDict (dedup rw2))\<rparr>"
  from start2 run2 have "resolve_context c ovs s1 = Inr ?s2"
    by (simp add: resolve_context_Inr_iff)
  moreover from s1 have "settings s1 c = Some (SDict (dedup rw1))" by simp
  moreover have "settings ?s2 c = Some (SDict (dedup rw2))" by simp
  ultimately show ?thesis using r w by blast
qed

text \<open>
  What one override entry does to the two sets, and what the stored lists look like.
\<close>

lemma override_entry_effect:
  assumes "apply_override rw (f, v) = Inr rw1" "unpack v = Inr (r, w)"
    "map_of rw ''readable'' = Some xs" "map_of rw ''writable'' = Some ws"
  shows "\<exists>xs1 ws1. map_of rw1 ''readable'' = Some xs1 \<and> map_of rw1 ''writable'' = Some ws1
     \<and> (truthy r \<longrightarrow> set xs1 = insert f (set xs))
     \<and> (\<not> truthy r \<and> f \<notin> set xs \<longrightarrow> xs1 = xs)
     \<and> (\<not> truthy r \<and> count_list xs f \<le> 1 \<longrightarrow> set xs1 = set xs - {f})
     \<and> (truthy w \<longrightarrow> set ws1 = insert f (set ws))
     \<and> (\<not> truthy w \<and> f \<notin> set ws \<longrightarrow> ws1 = ws)
     \<and> (\<not> truthy w \<and> count_list ws f \<le> 1 \<longrightarrow> set ws1 = set ws - {f})"
  using apply_override_readable [OF assms(1,2,3)] apply_override_writable [OF assms(1,2,4)]
  by (auto simp: remove1_idem set_remove1_once)

lemma stored_lists_distinct:
  assumes "resolve_context c ovs s = Inr s'"
  shows "\<exists>rw d. apply_overrides rw ovs = Inr d \<and> settings s' c = Some (SDict (dedup d))
           \<and> (\<forall>k xs. map_of d k = Some xs \<longrightarrow>
                 (\<exists>ys. map_of (dedup d) k = Some ys \<and> distinct ys \<and> set ys = set xs))"
proof -
  from assms obtain rw d where
    run: "apply_overrides rw ovs = Inr d"
    and s': "s' = s\<lparr>settings := (settings s)(c \<mapsto> SDict (dedup d))\<rparr>"
    by (auto simp: resolve_context_Inr_iff)
  have "\<forall>k xs. map_of d k = Some xs \<longrightarrow>
          (\<exists>ys. map_of (dedup d) k = Some ys \<and> distinct ys \<and> set ys = set xs)"
    by (simp add: map_of_dedup)
  with run s' show ?thesis by auto
qed

text \<open>The pipeline as three stages, and the errors of a single override.\<close>

lemma define_model_split:
  "define_model h s =
     then_do (structural_setup h s) (\<lambda>s8.
     then_do (define_authform_utils (hide_all s8)) (\<lambda>s10.
     then_do (setup_hook h s10) (\<lambda>s'.
       Inr ([Validation, Defaults, Updates, Representation, Computations, Callbacks,
             Scopes, Indexes, HideAll, AuthformUtils, Setup], s'))))"
  by (simp add: define_model_def structural_setup_def call_def then_do_def split: sum.splits)



text \<open>
  The loop of \<^verbatim>\<open>__define_authform_utils\<close> runs over the items of a dictionary. For a run
  that returns, the order of the two settings makes no difference.
\<close>

lemma initial_rwdata_other_setting:
  "a \<noteq> b \<Longrightarrow> initial_rwdata (s\<lparr>settings := (settings s)(a \<mapsto> x)\<rparr>) b = initial_rwdata s b"
proof -
  have "base_visibility (s\<lparr>settings := (settings s)(a \<mapsto> x)\<rparr>) b = base_visibility s b"
    by (simp add: base_visibility_def)
  then show ?thesis if "a \<noteq> b"
    using that by (simp add: initial_rwdata_def settings_get_def Let_def)
qed

lemma resolve_context_commute:
  assumes "a \<noteq> b"
  shows "then_do (resolve_context a oa s) (resolve_context b ob) = Inr s'
     \<longleftrightarrow> then_do (resolve_context b ob s) (resolve_context a oa) = Inr s'"
  using assms
  by (auto simp: then_do_Inr_iff resolve_context_Inr_iff initial_rwdata_other_setting
      fun_upd_twist)

section \<open>Results\<close>

subsection \<open>Row methods\<close>

text \<open>
  Claim C5, as the module has it. \<^verbatim>\<open>disable()\<close>, \<^verbatim>\<open>block()\<close> and \<^verbatim>\<open>allow()\<close>
  assign \<^verbatim>\<open>"disabled"\<close>, \<^verbatim>\<open>"blocked"\<close> and \<^verbatim>\<open>""\<close> to \<^verbatim>\<open>registration_key\<close> of any
  row, whatever it held, refresh \<^verbatim>\<open>updated_at\<close>, leave every other field alone and
  return the row so updated. Applying one of them again leaves \<^verbatim>\<open>registration_key\<close> as
  it is, and leaves the whole row as it is when the clock has not moved. Of two
  operations in sequence the last one decides: from \<^verbatim>\<open>""\<close>, \<^verbatim>\<open>block()\<close> gives
  \<^verbatim>\<open>"blocked"\<close> and a following \<^verbatim>\<open>allow()\<close> gives \<^verbatim>\<open>""\<close>; \<^verbatim>\<open>disable()\<close> then
  \<^verbatim>\<open>block()\<close> gives \<^verbatim>\<open>"blocked"\<close>.
\<close>

theorem row_methods_assign_registration_key:
  "set_disabled req wall row =
     row(''updated_at'' \<mapsto> now req wall, ''registration_key'' \<mapsto> PStr ''disabled'')
   \<and> set_blocked req wall row =
     row(''updated_at'' \<mapsto> now req wall, ''registration_key'' \<mapsto> PStr ''blocked'')
   \<and> set_allowed req wall row =
     row(''updated_at'' \<mapsto> now req wall, ''registration_key'' \<mapsto> PStr '''')
   \<and> set_disabled req' wall' (set_disabled req wall row) ''registration_key''
        = set_disabled req wall row ''registration_key''
   \<and> set_blocked req' wall' (set_blocked req wall row) ''registration_key''
        = set_blocked req wall row ''registration_key''
   \<and> set_allowed req' wall' (set_allowed req wall row) ''registration_key''
        = set_allowed req wall row ''registration_key''
   \<and> set_disabled req wall (set_disabled req wall row) = set_disabled req wall row
   \<and> set_blocked req wall (set_blocked req wall row) = set_blocked req wall row
   \<and> set_allowed req wall (set_allowed req wall row) = set_allowed req wall row
   \<and> set_blocked req wall (row(''registration_key'' \<mapsto> PStr '''')) ''registration_key''
        = Some (PStr ''blocked'')
   \<and> set_allowed req' wall' (set_blocked req wall (row(''registration_key'' \<mapsto> PStr '''')))
        ''registration_key'' = Some (PStr '''')
   \<and> set_blocked req' wall' (set_disabled req wall row) ''registration_key''
        = Some (PStr ''blocked'')
   \<and> set_blocked req' wall' (set_disabled req wall row) = set_blocked req' wall' row
   \<and> set_allowed req' wall' (set_blocked req wall row) = set_allowed req' wall' row
   \<and> set_disabled req' wall' (set_allowed req wall row) = set_disabled req' wall' row"
  by (simp add: set_disabled_def set_blocked_def set_allowed_def update_record_def)

text \<open>
  Against claim C5 as stated: applying \<^verbatim>\<open>disable()\<close> again is not a change of nothing
  once the clock has moved. The second call, at time 2, stores a new \<^verbatim>\<open>updated_at\<close> in
  the row that the first call, at time 1, returned.
\<close>

theorem reapplying_refreshes_updated_at:
  "set_disabled None (PDatetime 1) example_row ''updated_at'' = Some (PDatetime 1)
   \<and> set_disabled None (PDatetime 2) (set_disabled None (PDatetime 1) example_row) ''updated_at''
        = Some (PDatetime 2)
   \<and> set_disabled None (PDatetime 2) (set_disabled None (PDatetime 1) example_row)
        \<noteq> set_disabled None (PDatetime 1) example_row"
proof -
  have one: "set_disabled None (PDatetime 1) example_row ''updated_at'' = Some (PDatetime 1)"
    by (simp add: set_disabled_def update_record_def now_def)
  have two: "set_disabled None (PDatetime 2) (set_disabled None (PDatetime 1) example_row)
      ''updated_at'' = Some (PDatetime 2)"
    by (simp add: set_disabled_def update_record_def now_def)
  have "set_disabled None (PDatetime 2) (set_disabled None (PDatetime 1) example_row)
        \<noteq> set_disabled None (PDatetime 1) example_row"
  proof
    assume "set_disabled None (PDatetime 2) (set_disabled None (PDatetime 1) example_row)
        = set_disabled None (PDatetime 1) example_row"
    then have "set_disabled None (PDatetime 2) (set_disabled None (PDatetime 1) example_row)
        ''updated_at'' = set_disabled None (PDatetime 1) example_row ''updated_at''"
      by simp
    with one two show False by simp
  qed
  with one two show ?thesis by blast
qed

subsection \<open>The insert hook\<close>

text \<open>
  Claim C6. On insertion the hook stores the generated token under \<^verbatim>\<open>registration_key\<close>
  exactly when the settings require verification and the fields supply no token, the
  value supplied being absent or false in Python's sense; in every other case it returns
  the fields as they came.
\<close>

theorem registration_key_issued_iff:
  "(truthy_setting (settings_get (settings self) ''registration_requires_verification'')
      \<and> \<not> (\<exists>v. flds ''registration_key'' = Some v \<and> truthy v)
     \<longrightarrow> set_registration_key self tok flds = flds(''registration_key'' \<mapsto> PStr tok))
   \<and> (\<not> (truthy_setting (settings_get (settings self') ''registration_requires_verification'')
          \<and> \<not> (\<exists>v. flds' ''registration_key'' = Some v \<and> truthy v))
     \<longrightarrow> set_registration_key self' tok flds' = flds')"
  by (auto simp: set_registration_key_def dict_get_def split: option.splits)

theorem registration_key_issued_iff_witness:
  "(let self = \<lparr>table = [], settings = [''registration_requires_verification'' \<mapsto> SBool True],
                 form_registration_rw = [], form_profile_rw = []\<rparr>;
        self' = \<lparr>table = [], settings = Map.empty,
                 form_registration_rw = [], form_profile_rw = []\<rparr>;
        flds = [''email'' \<mapsto> PStr ''a@b.c''];
        flds' = [''email'' \<mapsto> PStr ''a@b.c'']
    in truthy_setting (settings_get (settings self) ''registration_requires_verification'')
       \<and> \<not> (\<exists>v. flds ''registration_key'' = Some v \<and> truthy v)
       \<and> set_registration_key self ''t0k'' flds = flds(''registration_key'' \<mapsto> PStr ''t0k'')
       \<and> \<not> (truthy_setting (settings_get (settings self') ''registration_requires_verification'')
          \<and> \<not> (\<exists>v. flds' ''registration_key'' = Some v \<and> truthy v))
       \<and> set_registration_key self' ''t0k'' flds' = flds')"
  using registration_key_issued_iff
    [of "\<lparr>table = [], settings = [''registration_requires_verification'' \<mapsto> SBool True],
                 form_registration_rw = [], form_profile_rw = []\<rparr>"
        "[''email'' \<mapsto> PStr ''a@b.c'']" "''t0k''"
        "\<lparr>table = [], settings = Map.empty,
                 form_registration_rw = [], form_profile_rw = []\<rparr>"
        "[''email'' \<mapsto> PStr ''a@b.c'']"]
  by (simp add: settings_get_def Let_def)

text \<open>
  Claim C9. When verification is required, a \<^verbatim>\<open>registration_key\<close> supplied as the empty
  string counts as not supplied and is replaced by the generated token, and a supplied
  non-empty string is kept.
\<close>

theorem empty_token_counts_as_absent:
  "truthy_setting (settings_get (settings self) ''registration_requires_verification'') \<Longrightarrow>
     (flds ''registration_key'' = Some (PStr '''')
        \<longrightarrow> set_registration_key self tok flds = flds(''registration_key'' \<mapsto> PStr tok))
     \<and> (flds' ''registration_key'' = Some (PStr (c # cs))
        \<longrightarrow> set_registration_key self tok flds' = flds')"
  by (simp add: set_registration_key_def dict_get_def)

theorem empty_token_counts_as_absent_witness:
  "(let self = \<lparr>table = [], settings = [''registration_requires_verification'' \<mapsto> SBool True],
                 form_registration_rw = [], form_profile_rw = []\<rparr>;
        flds = [''registration_key'' \<mapsto> PStr ''''];
        flds' = [''registration_key'' \<mapsto> PStr ''k'']
    in truthy_setting (settings_get (settings self) ''registration_requires_verification'')
       \<and> flds ''registration_key'' = Some (PStr '''')
       \<and> set_registration_key self ''t0k'' flds = [''registration_key'' \<mapsto> PStr ''t0k'']
       \<and> flds' ''registration_key'' = Some (PStr ''k'')
       \<and> set_registration_key self ''t0k'' flds' = flds')"
  using empty_token_counts_as_absent
    [of "\<lparr>table = [], settings = [''registration_requires_verification'' \<mapsto> SBool True],
                 form_registration_rw = [], form_profile_rw = []\<rparr>"
        "[''registration_key'' \<mapsto> PStr '''']" "''t0k''"
        "[''registration_key'' \<mapsto> PStr ''k'']" "CHR ''k''" "[]"]
  by (simp add: settings_get_def Let_def)

subsection \<open>The definition pipeline\<close>

text \<open>
  Claim C4. A run of \<^verbatim>\<open>_define_\<close> that returns has made exactly these calls, in this
  order: validation, defaults, updates, representation, computations, callbacks, scopes,
  indexes, the hiding step, the visibility resolution and \<^verbatim>\<open>setup()\<close>. Each step works on
  the model the step before it left: the hiding step on the result of the eight inherited
  steps, the resolution for \<^verbatim>\<open>register_fields\<close> on the hidden model, the resolution for
  \<^verbatim>\<open>profile_fields\<close> after it, and \<^verbatim>\<open>setup()\<close> last.
\<close>

theorem define_model_order:
  "define_model h self = Inr (tr, self') \<Longrightarrow>
     tr = [Validation, Defaults, Updates, Representation, Computations, Callbacks,
           Scopes, Indexes, HideAll, AuthformUtils, Setup]
     \<and> (\<exists>s1 s2 s3 s4 s5 s6 s7 s8 s9 s10.
          define_validation h self = Inr s1 \<and> define_defaults h s1 = Inr s2
          \<and> define_updates h s2 = Inr s3 \<and> define_representation h s3 = Inr s4
          \<and> define_computations h s4 = Inr s5 \<and> define_callbacks h s5 = Inr s6
          \<and> define_scopes h s6 = Inr s7 \<and> define_indexes h s7 = Inr s8
          \<and> resolve_context ''register_fields'' (form_registration_rw (hide_all s8))
                (hide_all s8) = Inr s9
          \<and> resolve_context ''profile_fields'' (form_profile_rw s9) s9 = Inr s10
          \<and> setup_hook h s10 = Inr self')"
proof -
  assume run: "define_model h self = Inr (tr, self')"
  from run obtain s8 s10 where
    tr: "tr = [Validation, Defaults, Updates, Representation, Computations, Callbacks,
           Scopes, Indexes, HideAll, AuthformUtils, Setup]"
    and s8: "structural_setup h self = Inr s8"
    and s10: "define_authform_utils (hide_all s8) = Inr s10"
    and fin: "setup_hook h s10 = Inr self'"
    unfolding define_model_Inr_iff by blast
  from s10 obtain s9 where
    reg: "resolve_context ''register_fields'' (form_registration_rw (hide_all s8))
            (hide_all s8) = Inr s9"
    and prof: "resolve_context ''profile_fields'' (form_profile_rw s9) s9 = Inr s10"
    unfolding define_authform_utils_Inr_iff by blast
  from s8 reg prof fin have
    "\<exists>s1 s2 s3 s4 s5 s6 s7 s8 s9 s10.
          define_validation h self = Inr s1 \<and> define_defaults h s1 = Inr s2
          \<and> define_updates h s2 = Inr s3 \<and> define_representation h s3 = Inr s4
          \<and> define_computations h s4 = Inr s5 \<and> define_callbacks h s5 = Inr s6
          \<and> define_scopes h s6 = Inr s7 \<and> define_indexes h s7 = Inr s8
          \<and> resolve_context ''register_fields'' (form_registration_rw (hide_all s8))
                (hide_all s8) = Inr s9
          \<and> resolve_context ''profile_fields'' (form_profile_rw s9) s9 = Inr s10
          \<and> setup_hook h s10 = Inr self'"
    unfolding structural_setup_Inr_iff by blast
  with tr show ?thesis by blast
qed


theorem define_model_order_witness:
  "define_model plain_hooks scenario_model =
     Inr ([Validation, Defaults, Updates, Representation, Computations, Callbacks,
           Scopes, Indexes, HideAll, AuthformUtils, Setup], scenario_result)
   \<and> (\<exists>s9. resolve_context ''register_fields'' [(''bio'', PBool True)] scenario_hidden = Inr s9
          \<and> resolve_context ''profile_fields'' (form_profile_rw s9) s9 = Inr scenario_result)"
  using define_model_order [OF scenario_run] scenario_run
  by (auto simp: plain_hooks_def scenario_hide_all scenario_hidden_def)

text \<open>
  Claim C10. The step \<^verbatim>\<open>define_form_utils\<close> of the base class is looked up and never
  called: the outcome of \<^verbatim>\<open>_define_\<close> is the same whatever that step would do, no call of
  it is made, and the visibility resolution receives the very model the hiding step
  returned.
\<close>

theorem form_utils_never_invoked:
  "define_model (h\<lparr>define_form_utils := g\<rparr>) self = define_model h self
   \<and> (define_model h self = Inr (tr, self') \<longrightarrow>
        FormUtils \<notin> set tr
        \<and> (\<exists>s8 s10. structural_setup h self = Inr s8
              \<and> define_authform_utils (hide_all s8) = Inr s10
              \<and> setup_hook h s10 = Inr self'))"
proof -
  have "define_model (h\<lparr>define_form_utils := g\<rparr>) self = define_model h self"
    by (simp add: define_model_def)
  moreover have "define_model h self = Inr (tr, self') \<longrightarrow>
        FormUtils \<notin> set tr
        \<and> (\<exists>s8 s10. structural_setup h self = Inr s8
              \<and> define_authform_utils (hide_all s8) = Inr s10
              \<and> setup_hook h s10 = Inr self')"
    unfolding define_model_Inr_iff by auto
  ultimately show ?thesis by blast
qed

theorem form_utils_never_invoked_witness:
  "define_model (plain_hooks\<lparr>define_form_utils := (\<lambda>s. Inl TypeError)\<rparr>) scenario_model
     = Inr ([Validation, Defaults, Updates, Representation, Computations, Callbacks,
             Scopes, Indexes, HideAll, AuthformUtils, Setup], scenario_result)
   \<and> FormUtils \<notin> set [Validation, Defaults, Updates, Representation, Computations, Callbacks,
             Scopes, Indexes, HideAll, AuthformUtils, Setup]
   \<and> structural_setup plain_hooks scenario_model = Inr scenario_model
   \<and> define_authform_utils (hide_all scenario_model) = Inr scenario_result"
  using form_utils_never_invoked [where h = plain_hooks and g = "\<lambda>s. Inl TypeError"
      and self = scenario_model and self' = scenario_result
      and tr = "[Validation, Defaults, Updates, Representation, Computations, Callbacks,
        Scopes, Indexes, HideAll, AuthformUtils, Setup]"] scenario_run
  by (auto simp: plain_hooks_def structural_setup_def then_do_simps)

subsection \<open>Hiding\<close>

text \<open>
  Claim C3, as the module has it. After the hiding step every field whose name is outside
  \<^verbatim>\<open>first_name\<close>, \<^verbatim>\<open>last_name\<close>, \<^verbatim>\<open>password\<close>, \<^verbatim>\<open>email\<close> is neither readable nor
  writable, and the fields with these names are as they were. The visibility resolution
  does not touch the table. The last step, \<^verbatim>\<open>setup()\<close>, is the hook of the subclass and
  may do so. When \<^verbatim>\<open>setup()\<close> leaves the table alone, as the inherited one does, the
  table at the end of the pipeline is the one the hiding step produced, and an
  always-visible field that was readable and writable when hiding began is readable and
  writable at the end, whatever the settings and the overrides.
\<close>

theorem always_visible_kept:
  "(\<forall>f \<in> set (table (hide_all s)). name f \<notin> set alwaysvisible \<longrightarrow> \<not> readable f \<and> \<not> writable f)
   \<and> length (table (hide_all s)) = length (table s)
   \<and> (\<forall>i < length (table s).
         name (table (hide_all s) ! i) = name (table s ! i)
         \<and> (name (table s ! i) \<in> set alwaysvisible \<longrightarrow> table (hide_all s) ! i = table s ! i))
   \<and> (define_authform_utils u = Inr u' \<longrightarrow> table u' = table u)
   \<and> (define_model h s0 = Inr (tr, s1) \<and> structural_setup h s0 = Inr s8
        \<and> (\<forall>a b. setup_hook h a = Inr b \<longrightarrow> table b = table a) \<longrightarrow>
          table s1 = table (hide_all s8)
          \<and> (\<forall>i < length (table s8).
                name (table s8 ! i) \<in> set alwaysvisible \<and> readable (table s8 ! i)
                  \<and> writable (table s8 ! i) \<longrightarrow>
                name (table s1 ! i) = name (table s8 ! i) \<and> readable (table s1 ! i)
                  \<and> writable (table s1 ! i)))"
proof -
  have hidden: "\<forall>f \<in> set (table (hide_all s)). name f \<notin> set alwaysvisible \<longrightarrow>
      \<not> readable f \<and> \<not> writable f"
    by (auto simp: table_hide_all)
  have len: "length (table (hide_all s)) = length (table s)"
    by (simp add: table_hide_all)
  have kept: "\<forall>i < length (table s).
         name (table (hide_all s) ! i) = name (table s ! i)
         \<and> (name (table s ! i) \<in> set alwaysvisible \<longrightarrow> table (hide_all s) ! i = table s ! i)"
    by (simp add: table_hide_all)
  have utils: "define_authform_utils u = Inr u' \<longrightarrow> table u' = table u"
    by (simp add: define_authform_utils_table)
  have full: "define_model h s0 = Inr (tr, s1) \<and> structural_setup h s0 = Inr s8
        \<and> (\<forall>a b. setup_hook h a = Inr b \<longrightarrow> table b = table a) \<longrightarrow>
          table s1 = table (hide_all s8)
          \<and> (\<forall>i < length (table s8).
                name (table s8 ! i) \<in> set alwaysvisible \<and> readable (table s8 ! i)
                  \<and> writable (table s8 ! i) \<longrightarrow>
                name (table s1 ! i) = name (table s8 ! i) \<and> readable (table s1 ! i)
                  \<and> writable (table s1 ! i))"
  proof (intro impI, elim conjE)
    assume run: "define_model h s0 = Inr (tr, s1)"
      and str: "structural_setup h s0 = Inr s8"
      and keep: "\<forall>a b. setup_hook h a = Inr b \<longrightarrow> table b = table a"
    from run str obtain s10 where
      s10: "define_authform_utils (hide_all s8) = Inr s10" and fin: "setup_hook h s10 = Inr s1"
      unfolding define_model_Inr_iff by auto
    from fin keep have "table s1 = table s10" by blast
    with define_authform_utils_table [OF s10] have t: "table s1 = table (hide_all s8)"
      by simp
    show "table s1 = table (hide_all s8)
          \<and> (\<forall>i < length (table s8).
                name (table s8 ! i) \<in> set alwaysvisible \<and> readable (table s8 ! i)
                  \<and> writable (table s8 ! i) \<longrightarrow>
                name (table s1 ! i) = name (table s8 ! i) \<and> readable (table s1 ! i)
                  \<and> writable (table s1 ! i))"
      unfolding t by (simp add: table_hide_all)
  qed
  from hidden len kept utils full show ?thesis by blast
qed

theorem always_visible_kept_witness:
  "\<lparr>name = ''bio'', readable = False, writable = False\<rparr> \<in> set (table (hide_all scenario_model))
   \<and> ''bio'' \<notin> set alwaysvisible
   \<and> 0 < length (table scenario_model)
   \<and> name (table scenario_model ! 0) \<in> set alwaysvisible
   \<and> table (hide_all scenario_model) ! 0 = table scenario_model ! 0
   \<and> define_authform_utils scenario_hidden = Inr scenario_result
   \<and> table scenario_result = table scenario_hidden
   \<and> define_model plain_hooks scenario_model =
        Inr ([Validation, Defaults, Updates, Representation, Computations, Callbacks,
              Scopes, Indexes, HideAll, AuthformUtils, Setup], scenario_result)
   \<and> structural_setup plain_hooks scenario_model = Inr scenario_model
   \<and> setup_hook plain_hooks = Inr
   \<and> table scenario_result = table (hide_all scenario_model)
   \<and> readable (table scenario_model ! 0) \<and> writable (table scenario_model ! 0)
   \<and> readable (table scenario_result ! 0) \<and> writable (table scenario_result ! 0)"
proof -
  have str: "structural_setup plain_hooks scenario_model = Inr scenario_model"
    by (simp add: plain_hooks_def structural_setup_def then_do_simps)
  have hook: "setup_hook plain_hooks = Inr"
    by (simp add: plain_hooks_def)
  have bio: "\<lparr>name = ''bio'', readable = False, writable = False\<rparr>
      \<in> set (table (hide_all scenario_model)) \<and> ''bio'' \<notin> set alwaysvisible"
    by (simp add: scenario_hide_all scenario_hidden_def alwaysvisible_def)
  have first: "0 < length (table scenario_model)
      \<and> name (table scenario_model ! 0) \<in> set alwaysvisible
      \<and> readable (table scenario_model ! 0) \<and> writable (table scenario_model ! 0)"
    by (simp add: scenario_model_def alwaysvisible_def)
  note inst = always_visible_kept [where s = scenario_model and u = scenario_hidden
      and u' = scenario_result and h = plain_hooks and ?s0.0 = scenario_model
      and tr = "[Validation, Defaults, Updates, Representation, Computations, Callbacks,
        Scopes, Indexes, HideAll, AuthformUtils, Setup]"
      and ?s1.0 = scenario_result and ?s8.0 = scenario_model]
  from inst scenario_run scenario_authform_utils str hook bio first show ?thesis
    by auto
qed

text \<open>
  Against claim C3 as stated: a later step of the pipeline can change the flags. With a
  \<^verbatim>\<open>setup()\<close> that makes \<^verbatim>\<open>email\<close> read-only, the pipeline returns, and \<^verbatim>\<open>email\<close>,
  always visible and writable before, is not writable at the end.
\<close>

theorem setup_can_change_flags:
  "define_model subclass_hooks scenario_model =
     Inr ([Validation, Defaults, Updates, Representation, Computations, Callbacks,
           Scopes, Indexes, HideAll, AuthformUtils, Setup], subclass_result)
   \<and> name (table scenario_model ! 2) = ''email''
   \<and> ''email'' \<in> set alwaysvisible
   \<and> readable (table scenario_model ! 2)
   \<and> writable (table scenario_model ! 2)
   \<and> name (table subclass_result ! 2) = ''email''
   \<and> \<not> writable (table subclass_result ! 2)"
proof -
  have str: "structural_setup subclass_hooks scenario_model = Inr scenario_model"
    by (simp add: subclass_hooks_def plain_hooks_def structural_setup_def then_do_simps)
  have fin: "setup_hook subclass_hooks scenario_result = Inr subclass_result"
    by (simp add: subclass_hooks_def subclass_result_def scenario_result_def)
  have run: "define_model subclass_hooks scenario_model =
     Inr ([Validation, Defaults, Updates, Representation, Computations, Callbacks,
           Scopes, Indexes, HideAll, AuthformUtils, Setup], subclass_result)"
    by (simp add: define_model_split str scenario_hide_all scenario_authform_utils fin
        then_do_simps)
  have before: "name (table scenario_model ! 2) = ''email'' \<and> ''email'' \<in> set alwaysvisible
      \<and> readable (table scenario_model ! 2) \<and> writable (table scenario_model ! 2)"
    by (simp add: scenario_model_def alwaysvisible_def)
  have after: "name (table subclass_result ! 2) = ''email''
      \<and> \<not> writable (table subclass_result ! 2)"
    by (simp add: subclass_result_def)
  from run before after show ?thesis by blast
qed

subsection \<open>Visibility resolution\<close>

text \<open>
  Claim C1. For a form context whose global setting is absent or empty, the resolver
  starts from the base-visibility list, the names of the writable fields without
  \<^verbatim>\<open>password\<close> and \<^verbatim>\<open>email\<close> for \<^verbatim>\<open>profile_fields\<close>, as the readable and as the writable
  list; a list or a tuple of names is taken for both; a dictionary is taken as it is.
  The structure that results from the overrides and the deduplication is stored in the
  settings under the same key, and nothing else of the model changes.
\<close>

theorem initial_visibility:
  "(\<not> truthy_setting (settings_get (settings s1) c1) \<longrightarrow>
      initial_rwdata s1 c1 =
        Inr [(''writable'', base_visibility s1 c1), (''readable'', base_visibility s1 c1)])
   \<and> (settings s2 c2 = Some (SList (x # xs)) \<longrightarrow>
      initial_rwdata s2 c2 = Inr [(''writable'', x # xs), (''readable'', x # xs)])
   \<and> (settings s3 c3 = Some (STuple (y # ys)) \<longrightarrow>
      initial_rwdata s3 c3 = Inr [(''writable'', y # ys), (''readable'', y # ys)])
   \<and> (settings s4 c4 = Some (SDict (kv # d)) \<longrightarrow> initial_rwdata s4 c4 = Inr (kv # d))
   \<and> base_visibility s ''register_fields'' = map name (filter writable (table s))
   \<and> base_visibility s ''profile_fields'' =
        map name (filter (\<lambda>f. writable f \<and> name f \<noteq> ''password'' \<and> name f \<noteq> ''email'')
          (table s))
   \<and> (resolve_context c ovs s5 = Inr s6 \<longrightarrow>
        (\<exists>rw rw'. initial_rwdata s5 c = Inr rw \<and> apply_overrides rw ovs = Inr rw'
           \<and> s6 = s5\<lparr>settings := (settings s5)(c \<mapsto> SDict (dedup rw'))\<rparr>))"
proof -
  have falsy: "\<not> truthy_setting (settings_get (settings s1) c1) \<longrightarrow>
      initial_rwdata s1 c1 =
        Inr [(''writable'', base_visibility s1 c1), (''readable'', base_visibility s1 c1)]"
    by (simp add: initial_rwdata_falsy)
  have flat: "settings s2 c2 = Some (SList (x # xs)) \<longrightarrow>
      initial_rwdata s2 c2 = Inr [(''writable'', x # xs), (''readable'', x # xs)]"
    by (simp add: initial_rwdata_def settings_get_def then_do_simps)
  have tuple: "settings s3 c3 = Some (STuple (y # ys)) \<longrightarrow>
      initial_rwdata s3 c3 = Inr [(''writable'', y # ys), (''readable'', y # ys)]"
    by (simp add: initial_rwdata_def settings_get_def then_do_simps)
  have dict: "settings s4 c4 = Some (SDict (kv # d)) \<longrightarrow> initial_rwdata s4 c4 = Inr (kv # d)"
    by (simp add: initial_rwdata_dict)
  have reg: "base_visibility s ''register_fields'' = map name (filter writable (table s))"
    by (simp add: base_visibility_def)
  have prof: "base_visibility s ''profile_fields'' =
        map name (filter (\<lambda>f. writable f \<and> name f \<noteq> ''password'' \<and> name f \<noteq> ''email'')
          (table s))"
    by (simp add: base_visibility_def)
  have store: "resolve_context c ovs s5 = Inr s6 \<longrightarrow>
        (\<exists>rw rw'. initial_rwdata s5 c = Inr rw \<and> apply_overrides rw ovs = Inr rw'
           \<and> s6 = s5\<lparr>settings := (settings s5)(c \<mapsto> SDict (dedup rw'))\<rparr>)"
    by (simp add: resolve_context_Inr_iff)
  from falsy flat tuple dict reg prof store show ?thesis by blast
qed

theorem initial_visibility_witness:
  "\<not> truthy_setting (settings_get (settings scenario_hidden) ''profile_fields'')
   \<and> initial_rwdata scenario_hidden ''profile_fields'' =
        Inr [(''writable'', [''first_name'', ''last_name'']),
             (''readable'', [''first_name'', ''last_name''])]
   \<and> settings (scenario_hidden\<lparr>settings := [''register_fields'' \<mapsto> SList [''email'']]\<rparr>)
        ''register_fields'' = Some (SList [''email''])
   \<and> initial_rwdata (scenario_hidden\<lparr>settings := [''register_fields'' \<mapsto> SList [''email'']]\<rparr>)
        ''register_fields'' = Inr [(''writable'', [''email'']), (''readable'', [''email''])]
   \<and> settings (scenario_hidden\<lparr>settings := [''register_fields'' \<mapsto> STuple [''email'']]\<rparr>)
        ''register_fields'' = Some (STuple [''email''])
   \<and> initial_rwdata (scenario_hidden\<lparr>settings := [''register_fields'' \<mapsto> STuple [''email'']]\<rparr>)
        ''register_fields'' = Inr [(''writable'', [''email'']), (''readable'', [''email''])]
   \<and> settings (scenario_hidden\<lparr>settings := [''register_fields'' \<mapsto>
          SDict [(''readable'', [''email'', ''bio'']), (''writable'', [''email''])]]\<rparr>)
        ''register_fields''
        = Some (SDict [(''readable'', [''email'', ''bio'']), (''writable'', [''email''])])
   \<and> initial_rwdata (scenario_hidden\<lparr>settings := [''register_fields'' \<mapsto>
          SDict [(''readable'', [''email'', ''bio'']), (''writable'', [''email''])]]\<rparr>)
        ''register_fields''
        = Inr [(''readable'', [''email'', ''bio'']), (''writable'', [''email''])]
   \<and> base_visibility scenario_hidden ''register_fields''
        = [''first_name'', ''last_name'', ''email'', ''password'']
   \<and> base_visibility scenario_hidden ''profile_fields'' = [''first_name'', ''last_name'']
   \<and> resolve_context ''profile_fields'' [(''bio'', PBool True)] scenario_hidden
        = Inr (scenario_hidden\<lparr>settings := [''profile_fields'' \<mapsto>
             SDict [(''writable'', [''first_name'', ''last_name'', ''bio'']),
                    (''readable'', [''first_name'', ''last_name'', ''bio''])]]\<rparr>)
   \<and> apply_overrides [(''writable'', [''first_name'', ''last_name'']),
                       (''readable'', [''first_name'', ''last_name''])] [(''bio'', PBool True)]
        = Inr [(''writable'', [''first_name'', ''last_name'', ''bio'']),
               (''readable'', [''first_name'', ''last_name'', ''bio''])]"
proof -
  have run: "resolve_context ''profile_fields'' [(''bio'', PBool True)] scenario_hidden
        = Inr (scenario_hidden\<lparr>settings := [''profile_fields'' \<mapsto>
             SDict [(''writable'', [''first_name'', ''last_name'', ''bio'']),
                    (''readable'', [''first_name'', ''last_name'', ''bio''])]]\<rparr>)"
    by (simp add: scenario_hidden_def resolve_context_def initial_rwdata_def settings_get_def
        base_visibility_def apply_override_def set_flag_def dedup_def then_do_def)
  have ovs: "apply_overrides [(''writable'', [''first_name'', ''last_name'']),
                       (''readable'', [''first_name'', ''last_name''])] [(''bio'', PBool True)]
        = Inr [(''writable'', [''first_name'', ''last_name'', ''bio'']),
               (''readable'', [''first_name'', ''last_name'', ''bio''])]"
    by (simp add: apply_override_def set_flag_def then_do_def)
  note inst = initial_visibility [where ?s1.0 = scenario_hidden and ?c1.0 = "''profile_fields''"
      and ?s2.0 = "scenario_hidden\<lparr>settings := [''register_fields'' \<mapsto> SList [''email'']]\<rparr>"
      and ?c2.0 = "''register_fields''" and x = "''email''" and xs = "[]"
      and ?s3.0 = "scenario_hidden\<lparr>settings := [''register_fields'' \<mapsto> STuple [''email'']]\<rparr>"
      and ?c3.0 = "''register_fields''" and y = "''email''" and ys = "[]"
      and ?s4.0 = "scenario_hidden\<lparr>settings := [''register_fields'' \<mapsto>
          SDict [(''readable'', [''email'', ''bio'']), (''writable'', [''email''])]]\<rparr>"
      and ?c4.0 = "''register_fields''" and kv = "(''readable'', [''email'', ''bio''])"
      and d = "[(''writable'', [''email''])]"
      and s = scenario_hidden and c = "''profile_fields''" and ovs = "[(''bio'', PBool True)]"
      and ?s5.0 = scenario_hidden
      and ?s6.0 = "scenario_hidden\<lparr>settings := [''profile_fields'' \<mapsto>
             SDict [(''writable'', [''first_name'', ''last_name'', ''bio'']),
                    (''readable'', [''first_name'', ''last_name'', ''bio''])]]\<rparr>"]
  have base: "\<not> truthy_setting (settings_get (settings scenario_hidden) ''profile_fields'')
    \<and> base_visibility scenario_hidden ''register_fields''
        = [''first_name'', ''last_name'', ''email'', ''password'']
    \<and> base_visibility scenario_hidden ''profile_fields'' = [''first_name'', ''last_name'']"
    by (simp add: scenario_hidden_def settings_get_def base_visibility_def)
  from inst run ovs base show ?thesis by simp
qed

text \<open>
  Claim C2. Each override entry is unpacked into a readable and a writable flag, a single
  value standing for both; a true flag adds the field to its set, a false flag removes
  it, and removing a field that is not listed is no error; at the end both lists are
  free of duplicates. The module departs from this for a field that the list holds
  twice: \<^verbatim>\<open>remove\<close> deletes one occurrence only. With the global setting
  \<^verbatim>\<open>['email', 'email']\<close> and the override \<^verbatim>\<open>{'email': False}\<close>, \<^verbatim>\<open>email\<close> is
  still in the readable and in the writable list that are stored.
\<close>

theorem falsy_override_keeps_field_listed_twice:
  "initial_rwdata duplicate_model ''register_fields'' =
     Inr [(''writable'', [''email'', ''email'']), (''readable'', [''email'', ''email''])]
   \<and> form_registration_rw duplicate_model = [(''email'', PBool False)]
   \<and> unpack (PBool False) = Inr (PBool False, PBool False)
   \<and> \<not> truthy (PBool False)
   \<and> apply_override [(''writable'', [''email'', ''email'']), (''readable'', [''email'', ''email''])]
        (''email'', PBool False)
       = Inr [(''writable'', [''email'']), (''readable'', [''email''])]
   \<and> resolve_context ''register_fields'' (form_registration_rw duplicate_model) duplicate_model
       = Inr (duplicate_model\<lparr>settings := [''register_fields'' \<mapsto>
                SDict [(''writable'', [''email'']), (''readable'', [''email''])]]\<rparr>)"
  by (simp add: duplicate_model_def resolve_context_def initial_rwdata_def settings_get_def
      apply_override_def set_flag_def dedup_def then_do_def)

text \<open>
  Claim C8. Resolving a context a second time, on the settings the first run stored and
  with the same fields and overrides, gives the same two sets. The module departs from
  this on the configuration above: the first run stores \<^verbatim>\<open>email\<close> in both lists, the
  second run stores two empty lists.
\<close>

theorem second_resolution_differs:
  "resolve_context ''register_fields'' [(''email'', PBool False)] duplicate_model
       = Inr (duplicate_model\<lparr>settings := [''register_fields'' \<mapsto>
                SDict [(''writable'', [''email'']), (''readable'', [''email''])]]\<rparr>)
   \<and> resolve_context ''register_fields'' [(''email'', PBool False)]
        (duplicate_model\<lparr>settings := [''register_fields'' \<mapsto>
                SDict [(''writable'', [''email'']), (''readable'', [''email''])]]\<rparr>)
       = Inr (duplicate_model\<lparr>settings := [''register_fields'' \<mapsto>
                SDict [(''writable'', []), (''readable'', [])]]\<rparr>)
   \<and> set [''email''] \<noteq> set ([] :: string list)"
  by (simp add: duplicate_model_def resolve_context_def initial_rwdata_def settings_get_def
      apply_override_def set_flag_def dedup_def then_do_def)





end
